theory Spec2Isabelle
  imports Complex_Main
begin

section \<open>Geometry values of the toolkit\<close>

text \<open>
  The program (\<^verbatim>\<open>app.py\<close>) is a PyQt6 window. Its crop box is a
  \<^verbatim>\<open>QGraphicsRectItem\<close> whose rectangle is a \<^verbatim>\<open>QRectF\<close> (four doubles:
  x, y, width, height) in the item's own coordinates and whose place in the scene is the
  item's \<^verbatim>\<open>pos()\<close>. Doubles are modelled by \<^typ>\<open>real\<close>: the arithmetic of the
  program is kept term by term and rounding of doubles is idealised away. Every concrete
  evaluation below uses small integers, where doubles are exact.
\<close>

record QRectF =
  rectf_x :: real
  rectf_y :: real
  rectf_width :: real
  rectf_height :: real

text \<open>
  \<^verbatim>\<open>ResizeHandle.__init__\<close> gives the handle the rectangle
  \<^verbatim>\<open>setRect(-40, -40, 40, 40)\<close>. Whether it is selected is decided by the toolkit
  (a press on it selects it). The handle's own position, which the handlers set with
  \<^verbatim>\<open>setPos\<close>, is read by no computation of the program and is left out.
\<close>

record ResizeHandle =
  handle_rect :: QRectF
  handle_selected :: bool

record DraggableRectItem =
  item_rect :: QRectF
  item_pos :: "real \<times> real"
  pen_width :: real
  resize_handle :: ResizeHandle

definition new_ResizeHandle :: ResizeHandle where
  "new_ResizeHandle =
     \<lparr>handle_rect = \<lparr>rectf_x = -40, rectf_y = -40, rectf_width = 40, rectf_height = 40\<rparr>,
      handle_selected = False\<rparr>"

text \<open>
  \<^verbatim>\<open>DraggableRectItem.__init__(rect)\<close>: the item sits at the origin and has the default
  pen of a shape item (width 1) until \<^verbatim>\<open>setPos\<close> and \<^verbatim>\<open>setPen\<close> are called.
\<close>

definition new_DraggableRectItem :: "QRectF \<Rightarrow> DraggableRectItem" where
  "new_DraggableRectItem rect =
     \<lparr>item_rect = rect, item_pos = (0, 0), pen_width = 1, resize_handle = new_ResizeHandle\<rparr>"

section \<open>Resizing from the corner handle\<close>

text \<open>
  \<^verbatim>\<open>ResizeHandle.mouseMoveEvent\<close>, lines 48 to 63 of \<^verbatim>\<open>app.py\<close>. The argument is
  \<^verbatim>\<open>event.scenePos()\<close>; the item is the handle's parent, which carries the handle.
  The call of the base class handler before it only moves items about and touches no
  rectangle.

  \<^verbatim>\<open>
  if self.isSelected():
      parent_rect = parent.rect()
      handle_rect = self.rect()
      dx = event.scenePos().x() - parent_rect.x() - parent_rect.width() + handle_rect.width() / 2
      dy = event.scenePos().y() - parent_rect.y() - parent_rect.height() + handle_rect.height() / 2
      new_size = max(dx, dy)
      new_width = new_size + parent_rect.width()
      new_height = new_size + parent_rect.height()
      parent_rect.setWidth(new_width)
      parent_rect.setHeight(new_height)
      parent.setRect(parent_rect)
  \<close>
\<close>

definition mouseMoveEvent :: "real \<times> real \<Rightarrow> DraggableRectItem \<Rightarrow> DraggableRectItem" where
  "mouseMoveEvent scenePos parent =
     (if handle_selected (resize_handle parent) then
        (let parent_rect = item_rect parent;
             handle_rect = handle_rect (resize_handle parent);
             dx = fst scenePos - rectf_x parent_rect - rectf_width parent_rect
                    + rectf_width handle_rect / 2;
             dy = snd scenePos - rectf_y parent_rect - rectf_height parent_rect
                    + rectf_height handle_rect / 2;
             new_size = max dx dy;
             new_width = new_size + rectf_width parent_rect;
             new_height = new_size + rectf_height parent_rect
         in parent\<lparr>item_rect :=
              parent_rect\<lparr>rectf_width := new_width, rectf_height := new_height\<rparr>\<rparr>)
      else parent)"

text \<open>
  The position of the box in the scene, which is the image's coordinate space: the
  corner of its rectangle, moved by the item's \<^verbatim>\<open>pos()\<close>.
\<close>

definition scene_position :: "DraggableRectItem \<Rightarrow> real \<times> real" where
  "scene_position box =
     (fst (item_pos box) + rectf_x (item_rect box), snd (item_pos box) + rectf_y (item_rect box))"

text \<open>
  The resize rule in the words of the specification: the deltas are measured from the
  far corner of the box to the pointer and nothing else is added.
\<close>

definition spec_resized_side :: "real \<Rightarrow> real \<Rightarrow> real \<Rightarrow> real \<Rightarrow> real \<Rightarrow> real" where
  "spec_resized_side x y side pointerX pointerY =
     side + max (pointerX - x - side) (pointerY - y - side)"

section \<open>Integer rectangles and images\<close>

text \<open>
  C++ integer division, as the toolkit uses it on \<^verbatim>\<open>int\<close>: the quotient is
  truncated towards zero, where \<^term>\<open>(div)\<close> on \<^typ>\<open>int\<close> rounds down.
\<close>

definition cdiv :: "int \<Rightarrow> int \<Rightarrow> int" where
  "cdiv a b = sgn a * sgn b * (\<bar>a\<bar> div \<bar>b\<bar>)"

text \<open>\<^verbatim>\<open>qRound\<close>: \<^verbatim>\<open>d >= 0.0 ? int(d + 0.5) : int(d - 0.5)\<close>, the cast truncating.\<close>

definition qRound :: "real \<Rightarrow> int" where
  "qRound d = (if d \<ge> 0 then \<lfloor>d + 1 / 2\<rfloor> else \<lceil>d - 1 / 2\<rceil>)"

record QRect =
  rect_x :: int
  rect_y :: int
  rect_width :: int
  rect_height :: int

text \<open>
  \<^verbatim>\<open>QRect.center()\<close>: the toolkit keeps the corners \<^verbatim>\<open>x1, y1, x2, y2\<close> with
  \<^verbatim>\<open>x2 = x1 + width - 1\<close> and returns \<^verbatim>\<open>((x1 + x2) / 2, (y1 + y2) / 2)\<close> in integer
  arithmetic.
\<close>

definition rect_center :: "QRect \<Rightarrow> int \<times> int" where
  "rect_center r =
     (cdiv (rect_x r + (rect_x r + rect_width r - 1)) 2,
      cdiv (rect_y r + (rect_y r + rect_height r - 1)) 2)"

text \<open>\<^verbatim>\<open>QRect.isNull()\<close>: width and height are both 0.\<close>

definition rect_isNull :: "QRect \<Rightarrow> bool" where
  "rect_isNull r = (rect_width r = 0 \<and> rect_height r = 0)"

text \<open>\<^verbatim>\<open>QRectF.translate(offset)\<close> moves the rectangle and keeps its size.\<close>

definition translate :: "real \<times> real \<Rightarrow> QRectF \<Rightarrow> QRectF" where
  "translate offset r =
     r\<lparr>rectf_x := rectf_x r + fst offset, rectf_y := rectf_y r + snd offset\<rparr>"

text \<open>
  \<^verbatim>\<open>QRectF.toRect()\<close> of Qt 6: the corner is rounded, and the size is rounded after half
  of the corner's rounding error is added to it. On a rectangle of integers it is the
  identity.
\<close>

definition toRect :: "QRectF \<Rightarrow> QRect" where
  "toRect r =
     (let nxp = qRound (rectf_x r);
          nyp = qRound (rectf_y r);
          nw = qRound (rectf_width r + (rectf_x r - real_of_int nxp) / 2);
          nh = qRound (rectf_height r + (rectf_y r - real_of_int nyp) / 2)
      in \<lparr>rect_x = nxp, rect_y = nyp, rect_width = nw, rect_height = nh\<rparr>)"

text \<open>
  \<^verbatim>\<open>QGraphicsRectItem.boundingRect()\<close>: the item's rectangle, grown on every side by
  half of the pen's width when the pen has a width, so that the outline is inside it.
\<close>

definition boundingRect :: "DraggableRectItem \<Rightarrow> QRectF" where
  "boundingRect item =
     (let halfpw = pen_width item / 2; r = item_rect item
      in if halfpw > 0
         then \<lparr>rectf_x = rectf_x r - halfpw, rectf_y = rectf_y r - halfpw,
               rectf_width = rectf_width r + halfpw + halfpw,
               rectf_height = rectf_height r + halfpw + halfpw\<rparr>
         else r)"

text \<open>
  A \<^verbatim>\<open>QImage\<close>: its size and its pixels, read at column and row. A null image (what
  \<^verbatim>\<open>QImage()\<close> and a failed load give) has size 0 by 0. The pixel format is left out;
  a pixel is a number and 0 is the colour the toolkit fills with.
\<close>

record QImage =
  img_width :: int
  img_height :: int
  img_pixel :: "int \<Rightarrow> int \<Rightarrow> nat"

definition null_QImage :: QImage where
  "null_QImage = \<lparr>img_width = 0, img_height = 0, img_pixel = (\<lambda>_ _. 0)\<rparr>"

definition img_isNull :: "QImage \<Rightarrow> bool" where
  "img_isNull img = (img_width img \<le> 0 \<or> img_height img \<le> 0)"

definition img_rect :: "QImage \<Rightarrow> QRect" where
  "img_rect img = \<lparr>rect_x = 0, rect_y = 0, rect_width = img_width img, rect_height = img_height img\<rparr>"

text \<open>
  What the machine lets the toolkit do. Making an image of a given width and height
  fails when its bytes are more than the toolkit can count or the memory can hold, and
  the toolkit then hands out a null image; \<open>can_allocate\<close> says for which sizes it
  succeeds. \<open>can_write\<close> says to which paths a file can be written.
\<close>

record toolkit =
  can_allocate :: "int \<Rightarrow> int \<Rightarrow> bool"
  can_write :: "string \<Rightarrow> bool"

text \<open>
  \<^verbatim>\<open>QImage.copy(rect)\<close>. The toolkit documents it so: the returned image is copied from
  the position of the rectangle in this image and always has the size of the rectangle;
  in areas beyond this image the pixels are set to 0; for a null rectangle the entire
  image is copied. A null image, and a rectangle with a width or height that is not
  positive, give a null image, and so does every copy whose image cannot be allocated.
\<close>

definition QImage_copy :: "toolkit \<Rightarrow> QRect \<Rightarrow> QImage \<Rightarrow> QImage" where
  "QImage_copy tk r img =
     (if img_isNull img then null_QImage
      else if rect_isNull r
      then (if can_allocate tk (img_width img) (img_height img) then img else null_QImage)
      else if rect_width r \<le> 0 \<or> rect_height r \<le> 0 then null_QImage
      else if \<not> can_allocate tk (rect_width r) (rect_height r) then null_QImage
      else \<lparr>img_width = rect_width r, img_height = rect_height r,
            img_pixel = (\<lambda>i j.
              if 0 \<le> rect_x r + i \<and> rect_x r + i < img_width img \<and>
                 0 \<le> rect_y r + j \<and> rect_y r + j < img_height img
              then img_pixel img (rect_x r + i) (rect_y r + j) else 0)\<rparr>)"

text \<open>
  \<^verbatim>\<open>QSize.scaled(s, Qt.KeepAspectRatio)\<close>: the largest size of the same aspect ratio
  that fits inside \<^verbatim>\<open>s\<close>, in truncating integer arithmetic.
\<close>

definition QSize_scaled :: "int \<times> int \<Rightarrow> int \<times> int \<Rightarrow> int \<times> int" where
  "QSize_scaled sz s =
     (if fst sz = 0 \<or> snd sz = 0 then s
      else (let rw = cdiv (snd s * fst sz) (snd sz)
            in if rw \<le> fst s then (rw, snd s)
               else (fst s, cdiv (fst s * snd sz) (fst sz))))"

text \<open>
  \<^verbatim>\<open>QImage.scaled(w, h, Qt.KeepAspectRatio)\<close>. Resampling is not modelled: the result
  records the image that was scaled and the size it was scaled to, which is at least 1
  by 1. A null image, or an empty target size, gives a null result (\<^term>\<open>None\<close>).
  An image that has the new size already is returned as it is; any other result is a
  new image, and is null when it cannot be allocated.
\<close>

record scaled_image =
  scaled_from :: QImage
  scaled_size :: "int \<times> int"

definition QImage_scaled :: "toolkit \<Rightarrow> int \<Rightarrow> int \<Rightarrow> QImage \<Rightarrow> scaled_image option" where
  "QImage_scaled tk w h img =
     (if img_isNull img then None
      else if w \<le> 0 \<or> h \<le> 0 then None
      else (let newSize = QSize_scaled (img_width img, img_height img) (w, h);
                newSize = (max (fst newSize) 1, max (snd newSize) 1)
            in if newSize = (img_width img, img_height img)
               then Some \<lparr>scaled_from = img, scaled_size = newSize\<rparr>
               else if can_allocate tk (fst newSize) (snd newSize)
               then Some \<lparr>scaled_from = img, scaled_size = newSize\<rparr>
               else None))"

text \<open>
  \<^verbatim>\<open>QImage.save(file_path, "JPEG")\<close> returns whether the file was written. A null
  image is never written.
\<close>

definition QImage_save :: "toolkit \<Rightarrow> string \<Rightarrow> scaled_image option \<Rightarrow> bool" where
  "QImage_save tk file_path img =
     (case img of None \<Rightarrow> False | Some scaled \<Rightarrow> can_write tk file_path)"

section \<open>Strings\<close>

text \<open>
  The exceptions of Python that the program can raise. File names are read as ASCII
  text: a character is a letter, a digit or a word character when it is an ASCII one.
\<close>

datatype py_error = ValueError | IndexError

definition is_digit :: "char \<Rightarrow> bool" where
  "is_digit c = (48 \<le> (of_char c :: nat) \<and> (of_char c :: nat) \<le> 57)"

definition is_alnum :: "char \<Rightarrow> bool" where
  "is_alnum c =
     (is_digit c \<or> (65 \<le> (of_char c :: nat) \<and> (of_char c :: nat) \<le> 90)
                \<or> (97 \<le> (of_char c :: nat) \<and> (of_char c :: nat) \<le> 122))"

text \<open>A text of ASCII characters only.\<close>

definition ascii_text :: "string \<Rightarrow> bool" where
  "ascii_text s = list_all (\<lambda>c. (of_char c :: nat) < 128) s"

text \<open>The class \<^verbatim>\<open>\w\<close> of a regular expression: letters, digits and the underscore.\<close>

definition is_word :: "char \<Rightarrow> bool" where
  "is_word c = (is_alnum c \<or> c = CHR ''_'')"

text \<open>
  \<^verbatim>\<open>re.match(r"\w+_\d{3}.jpg", s)\<close> is a match at the start of \<^verbatim>\<open>s\<close>, with nothing
  asked of what follows it; the dot is any character but a newline. The part after
  \<^verbatim>\<open>\w+\<close> is \<open>re_tail\<close>. As the underscore is itself a word character, the run
  \<^verbatim>\<open>\w+\<close> may end at any of its underscores: there is a match when the tail matches after
  some non-empty run of word characters.
\<close>

fun re_tail :: "string \<Rightarrow> bool" where
  "re_tail (u # d1 # d2 # d3 # dot # j # p # g # rest) =
     (u = CHR ''_'' \<and> is_digit d1 \<and> is_digit d2 \<and> is_digit d3 \<and> dot \<noteq> CHR 0x0A
      \<and> j = CHR ''j'' \<and> p = CHR ''p'' \<and> g = CHR ''g'')"
| "re_tail _ = False"

fun re_match :: "string \<Rightarrow> bool" where
  "re_match [] = False"
| "re_match (c # cs) = (is_word c \<and> (re_tail cs \<or> re_match cs))"

text \<open>\<^verbatim>\<open>s.split(sep)\<close> for a separator of one character: the pieces between separators.\<close>

fun split_str :: "char \<Rightarrow> string \<Rightarrow> string list" where
  "split_str sep [] = [[]]"
| "split_str sep (c # cs) =
     (if c = sep then [] # split_str sep cs
      else (case split_str sep cs of
              [] \<Rightarrow> [[c]]
            | piece # pieces \<Rightarrow> (c # piece) # pieces))"

text \<open>Indexing a list with a constant that is not negative; out of range is IndexError.\<close>

definition index_py :: "'a list \<Rightarrow> nat \<Rightarrow> py_error + 'a" where
  "index_py xs i = (if i < length xs then Inr (xs ! i) else Inl IndexError)"

text \<open>\<^verbatim>\<open>xs[-1]\<close>.\<close>

definition index_last :: "'a list \<Rightarrow> py_error + 'a" where
  "index_last xs = (if xs = [] then Inl IndexError else Inr (last xs))"

text \<open>
  \<^verbatim>\<open>int(s)\<close>: white space around the number is dropped, one sign may lead, and the rest
  must be decimal digits, at least one. (Python also admits single underscores between
  digits; the program calls \<^verbatim>\<open>int\<close> only on a piece of \<^verbatim>\<open>split("_")\<close>, which has none.)
\<close>

definition is_space :: "char \<Rightarrow> bool" where
  "is_space c =
     (c = CHR '' '' \<or> (9 \<le> (of_char c :: nat) \<and> (of_char c :: nat) \<le> 13)
                   \<or> (28 \<le> (of_char c :: nat) \<and> (of_char c :: nat) \<le> 31))"

definition strip :: "string \<Rightarrow> string" where
  "strip s = rev (dropWhile is_space (rev (dropWhile is_space s)))"

definition digit_value :: "char \<Rightarrow> int" where
  "digit_value c = int (of_char c) - 48"

definition digits_value :: "string \<Rightarrow> py_error + int" where
  "digits_value ds =
     (if ds \<noteq> [] \<and> list_all is_digit ds
      then Inr (foldl (\<lambda>acc c. 10 * acc + digit_value c) 0 ds)
      else Inl ValueError)"

definition py_int :: "string \<Rightarrow> py_error + int" where
  "py_int s =
     (case strip s of
        [] \<Rightarrow> Inl ValueError
      | c # cs \<Rightarrow>
          if c = CHR ''-'' then (case digits_value cs of Inl e \<Rightarrow> Inl e | Inr n \<Rightarrow> Inr (- n))
          else if c = CHR ''+'' then digits_value cs
          else digits_value (c # cs))"

text \<open>\<^verbatim>\<open>str(n)\<close> for an integer: its decimal digits, after a minus sign when negative.\<close>

fun nat_digits :: "nat \<Rightarrow> string" where
  "nat_digits n =
     (if n < 10 then [char_of (48 + n)]
      else nat_digits (n div 10) @ [char_of (48 + n mod 10)])"

definition py_str :: "int \<Rightarrow> string" where
  "py_str n = (if n < 0 then CHR ''-'' # nat_digits (nat (- n)) else nat_digits (nat n))"

text \<open>
  \<^verbatim>\<open>s.zfill(width)\<close>: zeros are put on the left until the length is \<^verbatim>\<open>width\<close>, after a
  leading sign when there is one; a string that is long enough is returned as it is.
\<close>

definition zfill :: "nat \<Rightarrow> string \<Rightarrow> string" where
  "zfill width s =
     (if length s \<ge> width then s
      else (case s of
              [] \<Rightarrow> replicate width CHR ''0''
            | c # cs \<Rightarrow>
                if c = CHR ''+'' \<or> c = CHR ''-''
                then c # replicate (width - length s) CHR ''0'' @ cs
                else replicate (width - length s) CHR ''0'' @ s))"

text \<open>
  The new name that \<^verbatim>\<open>save_image\<close> computes on line 380, evaluated from left to right:
  \<^verbatim>\<open>
  "".join([self.suggested_filename.split("_")[0], "_",
           str(int(self.suggested_filename.split("_")[1].split(".")[0]) + 1).zfill(3),
           ".jpg"])
  \<close>
\<close>

definition incremented_filename :: "string \<Rightarrow> py_error + string" where
  "incremented_filename name =
     (case index_py (split_str CHR ''_'' name) 0 of
        Inl e \<Rightarrow> Inl e
      | Inr stem \<Rightarrow>
          (case index_py (split_str CHR ''_'' name) 1 of
             Inl e \<Rightarrow> Inl e
           | Inr rest \<Rightarrow>
               (case index_py (split_str CHR ''.'' rest) 0 of
                  Inl e \<Rightarrow> Inl e
                | Inr number \<Rightarrow>
                    (case py_int number of
                       Inl e \<Rightarrow> Inl e
                     | Inr n \<Rightarrow>
                         Inr (concat [stem, ''_'', zfill 3 (py_str (n + 1)), ''.jpg''])))))"

section \<open>The window and its handlers\<close>

text \<open>
  The fields of \<^verbatim>\<open>ImageProcessor\<close> that its handlers read and write. Python's
  \<^verbatim>\<open>None\<close> is \<^term>\<open>None\<close>; a \<^verbatim>\<open>QImage\<close> or a graphics item is an object without
  \<^verbatim>\<open>__bool__\<close> or \<^verbatim>\<open>__len__\<close>, so it counts as true in a condition whatever it holds.
  The widgets, the scene and the view are display only.
\<close>

record ImageProcessor =
  self_image_width :: int
  self_image_height :: int
  self_image :: "QImage option"
  self_image_original :: "QImage option"
  self_box :: "DraggableRectItem option"
  self_suggested_filename :: string
  self_message_label :: string

text \<open>\<^verbatim>\<open>ImageProcessor.__init__\<close>.\<close>

definition init_ImageProcessor :: ImageProcessor where
  "init_ImageProcessor =
     \<lparr>self_image_width = 1024, self_image_height = 1024,
      self_image = None, self_image_original = None, self_box = None,
      self_suggested_filename = ''image_000.jpg'', self_message_label = []\<rparr>"

text \<open>
  \<^verbatim>\<open>draw_image(draw_box)\<close>, lines 404 to 431: without an image it returns at once;
  otherwise the box is made anew from the selected size and put at
  \<^verbatim>\<open>image_rect.center() - size // 2\<close>, with a pen of width 20.
\<close>

definition draw_image :: "bool \<Rightarrow> ImageProcessor \<Rightarrow> ImageProcessor" where
  "draw_image draw_box self =
     (case self_image self of
        None \<Rightarrow> self
      | Some img \<Rightarrow>
          if draw_box then
            (let image_rect = img_rect img;
                 box_width = self_image_width self;
                 box_height = self_image_height self;
                 box_rect = \<lparr>rectf_x = 0, rectf_y = 0, rectf_width = real_of_int box_width,
                             rectf_height = real_of_int box_height\<rparr>;
                 box = new_DraggableRectItem box_rect;
                 box = box\<lparr>item_pos :=
                         (real_of_int (fst (rect_center image_rect) - box_width div 2),
                          real_of_int (snd (rect_center image_rect) - box_height div 2))\<rparr>;
                 box = box\<lparr>pen_width := 20\<rparr>
             in self\<lparr>self_box := Some box\<rparr>)
          else self\<lparr>self_box := None\<rparr>)"

text \<open>\<^verbatim>\<open>set_image_size(size)\<close>, lines 337 to 348; the argument is the text of the combo box.\<close>

definition set_image_size :: "string \<Rightarrow> ImageProcessor \<Rightarrow> py_error + ImageProcessor" where
  "set_image_size size_text self =
     (if size_text = ''512 x 512''
      then Inr (draw_image True (self\<lparr>self_image_width := 512, self_image_height := 512\<rparr>))
      else if size_text = ''1024 x 1024''
      then Inr (draw_image True (self\<lparr>self_image_width := 1024, self_image_height := 1024\<rparr>))
      else if size_text = ''2048 x 2048''
      then Inr (draw_image True (self\<lparr>self_image_width := 2048, self_image_height := 2048\<rparr>))
      else Inl ValueError)"

text \<open>
  The user and the disk. \<^verbatim>\<open>QImage(file_path)\<close> is the function \<open>decode\<close> (a null image
  for a file that cannot be read). The open dialog returns what the user chooses, the
  empty string when the user cancels: the answers the user will give to the dialogs to
  come are a list, and each dialog takes the first.
\<close>

definition getOpenFileName :: "string list \<Rightarrow> string \<times> string list" where
  "getOpenFileName answers = (case answers of [] \<Rightarrow> ([], []) | a # rest \<Rightarrow> (a, rest))"

text \<open>\<^verbatim>\<open>load_image(file_path)\<close>, lines 357 to 361.\<close>

definition load_image ::
  "(string \<Rightarrow> QImage) \<Rightarrow> string \<Rightarrow> ImageProcessor \<times> string list \<Rightarrow> ImageProcessor \<times> string list"
where
  "load_image decode file_path st =
     (let (self, answers) = st;
          (file_path, answers) =
             (if file_path = [] then getOpenFileName answers else (file_path, answers))
      in if file_path \<noteq> []
         then (draw_image True
                 (self\<lparr>self_image_original := Some (decode file_path),
                       self_image := Some (decode file_path)\<rparr>), answers)
         else (self, answers))"

text \<open>
  \<^verbatim>\<open>dropEvent\<close>, lines 227 to 229: a loop over the dropped URLs, each given as its
  \<^verbatim>\<open>toLocalFile()\<close>, which is the empty string for a URL that is no local file.
  \<^verbatim>\<open>
  for url in event.mimeData().urls():
      file_path = url.toLocalFile()
      self.load_image(file_path)
  \<close>
\<close>

fun dropEvent ::
  "(string \<Rightarrow> QImage) \<Rightarrow> string list \<Rightarrow> ImageProcessor \<times> string list \<Rightarrow> ImageProcessor \<times> string list"
where
  "dropEvent decode [] st = st"
| "dropEvent decode (url # urls) st = dropEvent decode urls (load_image decode url st)"

text \<open>
  The rectangle that \<^verbatim>\<open>save_image\<close> crops, lines 372 to 377:
  \<^verbatim>\<open>
  box_rect = self.box.boundingRect()
  box_pos = self.box.pos()
  box_rect.translate(box_pos)
  cropped_image = self.image.copy(box_rect.toRect())
  \<close>
\<close>

definition crop_rect :: "DraggableRectItem \<Rightarrow> QRect" where
  "crop_rect box = toRect (translate (item_pos box) (boundingRect box))"

definition crop :: "toolkit \<Rightarrow> QImage \<Rightarrow> DraggableRectItem \<Rightarrow> QImage" where
  "crop tk img box = QImage_copy tk (crop_rect box) img"

text \<open>
  \<^verbatim>\<open>save_image\<close>, lines 370 to 387. The save dialog is a function from the name it
  offers to the path the user chooses, the empty string when the user cancels. The
  result carries the calls of \<^verbatim>\<open>QImage.save\<close> that were made, each with its path, the
  image handed over and the value the call returned; the program does not look at
  that value. An exception leaves the handler where it is raised.
  \<^verbatim>\<open>
  if self.image and self.box:
      ...
      cropped_image = self.image.copy(box_rect.toRect())
      if re.match(r"\w+_\d{3}.jpg", self.suggested_filename):
          self.suggested_filename = "".join([...])
      file_path, _ = QFileDialog.getSaveFileName(self, "Save Image", self.suggested_filename, ...)
      if file_path:
          cropped_image = cropped_image.scaled(self.image_width, self.image_height, ...)
          cropped_image.save(file_path, "JPEG")
          self.message_label.setText("Saved!")
          self.suggested_filename = file_path.split("/")[-1]
  \<close>
\<close>

type_synonym save_call = "string \<times> scaled_image option \<times> bool"

definition save_image ::
  "toolkit \<Rightarrow> (string \<Rightarrow> string) \<Rightarrow> ImageProcessor
     \<Rightarrow> py_error + (ImageProcessor \<times> save_call list)"
where
  "save_image tk getSaveFileName self =
     (case (self_image self, self_box self) of
        (Some img, Some box) \<Rightarrow>
          (let cropped_image = crop tk img box in
           case (if re_match (self_suggested_filename self)
                 then incremented_filename (self_suggested_filename self)
                 else Inr (self_suggested_filename self)) of
             Inl e \<Rightarrow> Inl e
           | Inr name \<Rightarrow>
               (let self = self\<lparr>self_suggested_filename := name\<rparr>;
                    file_path = getSaveFileName name
                in if file_path \<noteq> []
                   then
                     (let scaled = QImage_scaled tk (self_image_width self)
                                     (self_image_height self) cropped_image;
                          written = QImage_save tk file_path scaled
                      in case index_last (split_str CHR ''/'' file_path) of
                           Inl e \<Rightarrow> Inl e
                         | Inr base \<Rightarrow>
                             Inr (self\<lparr>self_message_label := ''Saved!'',
                                       self_suggested_filename := base\<rparr>,
                                  [(file_path, scaled, written)]))
                   else Inr (self, [])))
      | _ \<Rightarrow> Inr (self, []))"

text \<open>The name the window suggests after a save, when the handler did not raise.\<close>

definition filename_after_save ::
  "toolkit \<Rightarrow> (string \<Rightarrow> string) \<Rightarrow> ImageProcessor \<Rightarrow> string option"
where
  "filename_after_save tk getSaveFileName self =
     (case save_image tk getSaveFileName self of
        Inl e \<Rightarrow> None
      | Inr (self', saved) \<Rightarrow> Some (self_suggested_filename self'))"

section \<open>A session of the window\<close>

text \<open>
  What the user can do to the window. A press selects the corner handle or takes the
  selection away from it; a pointer move on the handle runs
  \<^verbatim>\<open>ResizeHandle.mouseMoveEvent\<close>; a drag of the box moves it, which is the toolkit's
  doing (\<^verbatim>\<open>ItemIsMovable\<close>); the combo box runs \<^verbatim>\<open>set_image_size\<close>; a file is
  loaded by its path or dropped; the save button runs \<^verbatim>\<open>save_image\<close> against what the
  user answers in the dialog.
\<close>

datatype action =
    SelectHandle bool
  | HandleMove "real \<times> real"
  | DragBox "real \<times> real"
  | SetImageSize string
  | LoadImage string
  | DropUrls "string list"
  | SaveImage "string \<Rightarrow> string"

definition on_box :: "(DraggableRectItem \<Rightarrow> DraggableRectItem) \<Rightarrow> ImageProcessor \<Rightarrow> ImageProcessor" where
  "on_box f self = self\<lparr>self_box := map_option f (self_box self)\<rparr>"

text \<open>
  One action. A handler that raises has assigned nothing before it raises, so the
  window is as it was (the run goes on from there; that the toolkit may end the program
  instead only shortens the run).
\<close>

fun step ::
  "toolkit \<Rightarrow> (string \<Rightarrow> QImage) \<Rightarrow> ImageProcessor \<times> string list \<Rightarrow> action
     \<Rightarrow> ImageProcessor \<times> string list"
where
  "step tk decode (self, answers) (SelectHandle b) =
     (on_box (\<lambda>box. box\<lparr>resize_handle := (resize_handle box)\<lparr>handle_selected := b\<rparr>\<rparr>) self,
      answers)"
| "step tk decode (self, answers) (HandleMove scenePos) =
     (on_box (mouseMoveEvent scenePos) self, answers)"
| "step tk decode (self, answers) (DragBox d) =
     (on_box (\<lambda>box. box\<lparr>item_pos := (fst (item_pos box) + fst d, snd (item_pos box) + snd d)\<rparr>)
        self, answers)"
| "step tk decode (self, answers) (SetImageSize size_text) =
     (case set_image_size size_text self of
        Inl e \<Rightarrow> (self, answers)
      | Inr self' \<Rightarrow> (self', answers))"
| "step tk decode (self, answers) (LoadImage file_path) =
     load_image decode file_path (self, answers)"
| "step tk decode (self, answers) (DropUrls urls) = dropEvent decode urls (self, answers)"
| "step tk decode (self, answers) (SaveImage getSaveFileName) =
     (case save_image tk getSaveFileName self of
        Inl e \<Rightarrow> (self, answers)
      | Inr (self', saved) \<Rightarrow> (self', answers))"

definition run ::
  "toolkit \<Rightarrow> (string \<Rightarrow> QImage) \<Rightarrow> string list \<Rightarrow> action list
     \<Rightarrow> ImageProcessor \<times> string list"
where
  "run tk decode answers actions =
     foldl (step tk decode) (init_ImageProcessor, answers) actions"

text \<open>The box of the window is square, when there is one.\<close>

definition box_square :: "ImageProcessor \<Rightarrow> bool" where
  "box_square self =
     (case self_box self of
        None \<Rightarrow> True
      | Some box \<Rightarrow> rectf_width (item_rect box) = rectf_height (item_rect box))"

section \<open>The specification's wording, for comparison\<close>

text \<open>
  A file name \<^verbatim>\<open>name_NNN.jpg\<close>: a stem, an underscore, a counter padded with zeros to
  three digits, and the extension.
\<close>

definition numbered_name :: "string \<Rightarrow> int \<Rightarrow> string" where
  "numbered_name stem n = stem @ ''_'' @ zfill 3 (py_str n) @ ''.jpg''"

text \<open>
  The size of a crop that is clipped to the pixels there are: the part of the
  rectangle that lies inside the image.
\<close>

definition spec_clipped_size :: "QRect \<Rightarrow> QImage \<Rightarrow> int \<times> int" where
  "spec_clipped_size r img =
     (max 0 (min (rect_x r + rect_width r) (img_width img) - max (rect_x r) 0),
      max 0 (min (rect_y r + rect_height r) (img_height img) - max (rect_y r) 0))"

section \<open>Concrete inputs\<close>

text \<open>An image of the given size whose pixel at column i and row j is i + width * j.\<close>

definition ramp_image :: "int \<Rightarrow> int \<Rightarrow> QImage" where
  "ramp_image w h = \<lparr>img_width = w, img_height = h, img_pixel = (\<lambda>i j. nat (i + w * j))\<rparr>"

text \<open>A disk on which every file holds the given image.\<close>

definition disk_of :: "QImage \<Rightarrow> string \<Rightarrow> QImage" where
  "disk_of img path = img"

text \<open>The window after a file with the given image has been loaded into a fresh window.\<close>

definition window_with :: "QImage \<Rightarrow> ImageProcessor" where
  "window_with img = fst (load_image (disk_of img) ''in.png'' (init_ImageProcessor, []))"

text \<open>A save dialog in which the user keeps the offered name, in the directory \<^verbatim>\<open>/out\<close>.\<close>

definition accept_offered :: "string \<Rightarrow> string" where
  "accept_offered name = ''/out/'' @ name"

text \<open>A save dialog that the user cancels.\<close>

definition cancel_dialog :: "string \<Rightarrow> string" where
  "cancel_dialog name = []"

text \<open>A box with the given rectangle, as the constructor makes it, its handle selected.\<close>

definition selected_box :: "QRectF \<Rightarrow> DraggableRectItem" where
  "selected_box rect =
     (new_DraggableRectItem rect)\<lparr>resize_handle := new_ResizeHandle\<lparr>handle_selected := True\<rparr>\<rparr>"

text \<open>The box as \<^verbatim>\<open>draw_image\<close> leaves it: of the given side, at the given place.\<close>

definition drawn_box :: "int \<Rightarrow> int \<times> int \<Rightarrow> DraggableRectItem" where
  "drawn_box side place =
     \<lparr>item_rect = \<lparr>rectf_x = 0, rectf_y = 0, rectf_width = real_of_int side,
                    rectf_height = real_of_int side\<rparr>,
      item_pos = (real_of_int (fst place), real_of_int (snd place)),
      pen_width = 20, resize_handle = new_ResizeHandle\<rparr>"

text \<open>The same box with its corner handle selected.\<close>

definition with_handle_selected :: "DraggableRectItem \<Rightarrow> DraggableRectItem" where
  "with_handle_selected box =
     box\<lparr>resize_handle := (resize_handle box)\<lparr>handle_selected := True\<rparr>\<rparr>"

text \<open>A machine with memory for every image and a disk that takes every file.\<close>

definition ample_toolkit :: toolkit where
  "ample_toolkit = \<lparr>can_allocate = (\<lambda>w h. True), can_write = (\<lambda>path. True)\<rparr>"

text \<open>The same machine with a disk to which nothing can be written.\<close>

definition full_disk_toolkit :: toolkit where
  "full_disk_toolkit = \<lparr>can_allocate = (\<lambda>w h. True), can_write = (\<lambda>path. False)\<rparr>"

text \<open>A machine that cannot allocate an image of more than a million pixels.\<close>

definition small_memory_toolkit :: toolkit where
  "small_memory_toolkit =
     \<lparr>can_allocate = (\<lambda>w h. w * h \<le> 1000000), can_write = (\<lambda>path. True)\<rparr>"

text \<open>A save dialog in which the user types a name of their own.\<close>

definition other_name_dialog :: "string \<Rightarrow> string" where
  "other_name_dialog name = ''/out/cat.jpg''"

text \<open>A disk with two files that hold different images.\<close>

definition two_files :: "string \<Rightarrow> QImage" where
  "two_files path = (if path = ''a.png'' then ramp_image 1 1 else ramp_image 2 2)"

text \<open>The calls of \<^verbatim>\<open>QImage.save\<close> that a press of the save button makes.\<close>

definition saved_files ::
  "toolkit \<Rightarrow> (string \<Rightarrow> string) \<Rightarrow> ImageProcessor \<Rightarrow> save_call list"
where
  "saved_files tk getSaveFileName self =
     (case save_image tk getSaveFileName self of
        Inl e \<Rightarrow> []
      | Inr (self', saved) \<Rightarrow> saved)"

text \<open>The path of a call of \<^verbatim>\<open>QImage.save\<close> and the value the call returned.\<close>

definition call_outcome :: "save_call \<Rightarrow> string \<times> bool" where
  "call_outcome call = (fst call, snd (snd call))"

section \<open>The invariant of a session\<close>

text \<open>
  The selected width and height are equal and the box, when there is one, is square.
\<close>

definition window_inv :: "ImageProcessor \<Rightarrow> bool" where
  "window_inv self = (self_image_width self = self_image_height self \<and> box_square self)"

section \<open>Facts about the string functions\<close>

declare nat_digits.simps [simp del]

lemma split_str_nonempty: "split_str sep s \<noteq> []"
  by (induction s) (auto split: list.splits)

lemma split_str_no_sep: "sep \<notin> set s \<Longrightarrow> split_str sep s = [s]"
  by (induction s) (auto split: list.splits)

lemma split_str_first:
  "sep \<notin> set a \<Longrightarrow> split_str sep (a @ sep # rest) = a # split_str sep rest"
  by (induction a) (auto split: list.splits)

lemma split_str_two: "sep \<in> set s \<Longrightarrow> \<exists>p q qs. split_str sep s = p # q # qs"
proof (induction s)
  case Nil
  then show ?case by simp
next
  case (Cons c s)
  show ?case
  proof (cases "c = sep")
    case True
    then show ?thesis 
      using split_str_nonempty [of sep s] by (cases "split_str sep s") auto
  next
    case False
    with Cons obtain p q qs where "split_str sep s = p # q # qs" by auto
    with False show ?thesis by simp
  qed
qed

lemma split_str_last_Cons:
  "sep \<in> set s \<Longrightarrow> last (split_str sep (c # s)) = last (split_str sep s)"
  using split_str_two [of sep s] by auto

lemma split_str_last:
  "sep \<notin> set name \<Longrightarrow> last (split_str sep (dir @ sep # name)) = name"
proof (induction dir)
  case Nil
  then show ?case by (simp add: split_str_no_sep)
next
  case (Cons c dir)
  have "last (split_str sep (c # (dir @ sep # name))) = last (split_str sep (dir @ sep # name))"
    by (rule split_str_last_Cons) simp
  with Cons show ?case by simp
qed

lemma digit_char_is_digit: "k < 10 \<Longrightarrow> is_digit (char_of (48 + k :: nat))"
  by (simp add: is_digit_def)

lemma digit_char_value: "k < 10 \<Longrightarrow> digit_value (char_of (48 + k :: nat)) = int k"
  by (simp add: digit_value_def)

lemma digit_not_space: "is_digit c \<Longrightarrow> \<not> is_space c"
  by (auto simp add: is_space_def is_digit_def)

lemma alnum_not_underscore: "is_alnum c \<Longrightarrow> c \<noteq> CHR ''_''"
  by (auto simp add: is_alnum_def is_digit_def)

lemma alnum_not_slash: "is_alnum c \<Longrightarrow> c \<noteq> CHR ''/''"
  by (auto simp add: is_alnum_def is_digit_def)

lemma digit_not_dot: "is_digit c \<Longrightarrow> c \<noteq> CHR ''.''"
  by (auto simp add: is_digit_def)

lemma digit_not_sign: "is_digit c \<Longrightarrow> c \<noteq> CHR ''-'' \<and> c \<noteq> CHR ''+''"
  by (auto simp add: is_digit_def)

lemma digit_not_underscore: "is_digit c \<Longrightarrow> c \<noteq> CHR ''_''"
  by (auto simp add: is_digit_def)

lemma digit_not_slash: "is_digit c \<Longrightarrow> c \<noteq> CHR ''/''"
  by (auto simp add: is_digit_def)

lemma zero_char: "char_of (48::nat) = CHR ''0''"
  by code_simp
lemma zfill_three_digits:
  assumes "n < 1000"
  shows "zfill 3 (nat_digits n) =
           [char_of (48 + n div 100), char_of (48 + n div 10 mod 10), char_of (48 + n mod 10)]"
proof -
  consider "n < 10" | "10 \<le> n" "n < 100" | "100 \<le> n" using assms by linarith
  then show ?thesis
  proof cases
    case 1
    then have "nat_digits n = [char_of (48 + n)]" by (simp add: nat_digits.simps)
    moreover have "char_of (48 + n) \<noteq> CHR ''+'' \<and> char_of (48 + n) \<noteq> CHR ''-''"
      using digit_not_sign [OF digit_char_is_digit [OF 1]] by simp
    ultimately show ?thesis using 1 by (simp add: zfill_def numeral_3_eq_3 zero_char)
  next
    case 2
    then have "n div 10 < 10" by simp
    then have "nat_digits (n div 10) = [char_of (48 + n div 10)]"
      by (simp add: nat_digits.simps)
    then have d: "nat_digits n = [char_of (48 + n div 10), char_of (48 + n mod 10)]"
      using 2 by (simp add: nat_digits.simps [of n])
    moreover have "char_of (48 + n div 10) \<noteq> CHR ''+'' \<and> char_of (48 + n div 10) \<noteq> CHR ''-''"
      using digit_not_sign [OF digit_char_is_digit [OF \<open>n div 10 < 10\<close>]] by simp
    ultimately show ?thesis using 2 by (simp add: zfill_def numeral_3_eq_3 zero_char)
  next
    case 3
    have a: "n div 10 div 10 < 10" using assms by simp
    have b: "\<not> n div 10 < 10" using 3 by simp
    have "nat_digits (n div 10 div 10) = [char_of (48 + n div 10 div 10)]"
      using a by (simp add: nat_digits.simps)
    then have "nat_digits (n div 10)
                 = [char_of (48 + n div 10 div 10), char_of (48 + n div 10 mod 10)]"
      using b by (simp add: nat_digits.simps [of "n div 10"])
    then have "nat_digits n = [char_of (48 + n div 10 div 10), char_of (48 + n div 10 mod 10),
                               char_of (48 + n mod 10)]"
      using 3 by (simp add: nat_digits.simps [of n])
    moreover have "n div 10 div 10 = n div 100" by (simp add: div_mult2_eq [symmetric])
    ultimately show ?thesis by (simp add: zfill_def)
  qed
qed


lemma py_int_three_digits:
  assumes "a < 10" "b < 10" "c < 10"
  shows "py_int [char_of (48 + a :: nat), char_of (48 + b :: nat), char_of (48 + c :: nat)]
           = Inr (int (100 * a + 10 * b + c))"
proof -
  let ?a = "char_of (48 + a) :: char" and ?b = "char_of (48 + b) :: char" and ?c = "char_of (48 + c) :: char"
  have d: "is_digit ?a" "is_digit ?b" "is_digit ?c"
    using assms by (simp_all add: digit_char_is_digit)
  have s: "strip [?a, ?b, ?c] = [?a, ?b, ?c]"
    using d by (simp add: strip_def digit_not_space)
  have v: "digits_value [?a, ?b, ?c] = Inr (int (100 * a + 10 * b + c))"
    using d assms by (simp add: digits_value_def digit_char_value)
  show ?thesis
    using s v digit_not_sign [OF d(1)] by (simp add: py_int_def)
qed


lemma three_digits_sum:
  "100 * (n div 100) + 10 * (n div 10 mod 10) + n mod 10 = (n::nat)"
proof -
  have "n div 10 div 10 = n div 100" by (simp add: div_mult2_eq [symmetric])
  moreover have "n div 10 = 10 * (n div 10 div 10) + n div 10 mod 10" by simp
  moreover have "n = 10 * (n div 10) + n mod 10" by simp
  ultimately show ?thesis by linarith
qed

lemma py_int_zfill:
  assumes "n < 1000"
  shows "py_int (zfill 3 (nat_digits n)) = Inr (int n)"
proof -
  have "n div 100 < 10" "n div 10 mod 10 < 10" "n mod 10 < 10" using assms by simp_all
  from py_int_three_digits [OF this]
  show ?thesis
    by (simp only: zfill_three_digits [OF assms] three_digits_sum)
qed

lemma zfill_digits:
  assumes "n < 1000"
  shows "list_all is_digit (zfill 3 (nat_digits n))"
proof -
  have "n div 100 < 10" "n div 10 mod 10 < 10" "n mod 10 < 10" using assms by simp_all
  then show ?thesis
    by (simp add: zfill_three_digits [OF assms] digit_char_is_digit)
qed

lemma re_match_stem:
  assumes "stem \<noteq> []" "list_all is_word stem" "re_tail rest"
  shows "re_match (stem @ rest)"
  using assms
proof (induction stem)
  case Nil
  then show ?case by simp
next
  case (Cons c stem)
  then show ?case by (cases stem) auto
qed

lemma py_str_nat: "py_str (int n) = nat_digits n"
  by (simp add: py_str_def)

lemma numbered_name_split:
  assumes "list_all is_alnum stem" "n < 1000"
  shows "split_str CHR ''_'' (stem @ ''_'' @ zfill 3 (nat_digits n) @ ''.jpg'')
           = [stem, zfill 3 (nat_digits n) @ ''.jpg'']"
    and "split_str CHR ''.'' (zfill 3 (nat_digits n) @ ''.jpg'')
           = [zfill 3 (nat_digits n), ''jpg'']"
proof -
  let ?D = "zfill 3 (nat_digits n)"
  have d: "list_all is_digit ?D" by (rule zfill_digits [OF assms(2)])
  have "CHR ''_'' \<notin> set stem"
    using assms(1) alnum_not_underscore by (auto simp: list_all_iff)
  moreover have "CHR ''_'' \<notin> set (?D @ ''.jpg'')"
    using d digit_not_underscore by (auto simp: list_all_iff)
  ultimately show "split_str CHR ''_'' (stem @ ''_'' @ ?D @ ''.jpg'') = [stem, ?D @ ''.jpg'']"
    using split_str_first [of "CHR ''_''" stem "?D @ ''.jpg''"]
    by (simp add: split_str_no_sep)
  have "CHR ''.'' \<notin> set ?D"
    using d digit_not_dot by (auto simp: list_all_iff)
  then show "split_str CHR ''.'' (?D @ ''.jpg'') = [?D, ''jpg'']"
    using split_str_first [of "CHR ''.''" ?D "''jpg''"] by simp
qed

lemma incremented_filename_numbered:
  assumes "list_all is_alnum stem" "n < 1000"
  shows "incremented_filename (stem @ ''_'' @ zfill 3 (py_str (int n)) @ ''.jpg'')
           = Inr (stem @ ''_'' @ zfill 3 (py_str (int n + 1)) @ ''.jpg'')"
  using numbered_name_split [OF assms] py_int_zfill [OF assms(2)]
  by (simp add: incremented_filename_def index_py_def py_str_nat)

lemma re_match_numbered:
  assumes "stem \<noteq> []" "list_all is_alnum stem" "n < 1000"
  shows "re_match (stem @ ''_'' @ zfill 3 (py_str (int n)) @ ''.jpg'')"
proof -
  have "n div 100 < 10" "n div 10 mod 10 < 10" "n mod 10 < 10" using assms by simp_all
  then have "re_tail (''_'' @ zfill 3 (nat_digits n) @ ''.jpg'')"
    by (simp add: zfill_three_digits [OF assms(3)] digit_char_is_digit)
  moreover have "list_all is_word stem"
    using assms(2) by (simp add: list_all_iff is_word_def)
  ultimately show ?thesis
    using re_match_stem [OF assms(1)] by (simp add: py_str_nat)
qed

lemma nat_digits_digits: "list_all is_digit (nat_digits n)"
proof (induction n rule: nat_digits.induct)
  case (1 n)
  show ?case
  proof (cases "n < 10")
    case True
    then show ?thesis by (simp add: nat_digits.simps [of n] digit_char_is_digit)
  next
    case False
    with 1 show ?thesis
      by (simp add: nat_digits.simps [of n] digit_char_is_digit)
  qed
qed

lemma zfill_no_slash: "CHR ''/'' \<notin> set s \<Longrightarrow> CHR ''/'' \<notin> set (zfill k s)"
  by (auto simp: zfill_def split: list.splits if_splits)

lemma numbered_name_no_slash:
  assumes "list_all is_alnum stem" "0 \<le> n"
  shows "CHR ''/'' \<notin> set (numbered_name stem n)"
proof -
  have "CHR ''/'' \<notin> set stem"
    using assms(1) alnum_not_slash by (auto simp: list_all_iff)
  moreover have "CHR ''/'' \<notin> set (nat_digits (nat n))"
    using nat_digits_digits [of "nat n"] digit_not_slash by (auto simp: list_all_iff)
  then have "CHR ''/'' \<notin> set (zfill 3 (py_str n))"
    using assms(2) by (simp add: py_str_def zfill_no_slash)
  ultimately show ?thesis by (simp add: numbered_name_def)
qed

lemma save_image_accepted:
  assumes "self_image self = Some img" and "self_box self = Some box"
    and "(if re_match (self_suggested_filename self)
          then incremented_filename (self_suggested_filename self)
          else Inr (self_suggested_filename self)) = Inr name"
    and "CHR ''/'' \<notin> set name"
    and "getSaveFileName name = dir @ ''/'' @ name"
  shows "filename_after_save tk getSaveFileName self = Some name"
proof -
  have "split_str CHR ''/'' (dir @ ''/'' @ name) \<noteq> []" by (rule split_str_nonempty)
  moreover have "last (split_str CHR ''/'' (dir @ ''/'' @ name)) = name"
    using split_str_last [OF assms(4), of dir] by simp
  ultimately show ?thesis
    using assms(1,2,3,5)
    by (simp add: filename_after_save_def save_image_def Let_def index_last_def)
qed

section \<open>Facts about the geometry and the handlers\<close>

lemma mouseMoveEvent_size:
  assumes "handle_selected (resize_handle box)"
  shows "rectf_width (item_rect (mouseMoveEvent (px, py) box)) =
           rectf_width (item_rect box) +
           max (px - rectf_x (item_rect box) - rectf_width (item_rect box)
                  + rectf_width (handle_rect (resize_handle box)) / 2)
               (py - rectf_y (item_rect box) - rectf_height (item_rect box)
                  + rectf_height (handle_rect (resize_handle box)) / 2)"
    and "rectf_height (item_rect (mouseMoveEvent (px, py) box)) =
           rectf_height (item_rect box) +
           max (px - rectf_x (item_rect box) - rectf_width (item_rect box)
                  + rectf_width (handle_rect (resize_handle box)) / 2)
               (py - rectf_y (item_rect box) - rectf_height (item_rect box)
                  + rectf_height (handle_rect (resize_handle box)) / 2)"
  using assms by (simp_all add: mouseMoveEvent_def Let_def)

lemma mouseMoveEvent_square:
  "rectf_width (item_rect box) = rectf_height (item_rect box) \<Longrightarrow>
   rectf_width (item_rect (mouseMoveEvent scenePos box)) =
   rectf_height (item_rect (mouseMoveEvent scenePos box))"
  by (simp add: mouseMoveEvent_def Let_def)

lemma draw_image_inv: "window_inv self \<Longrightarrow> window_inv (draw_image b self)"
  by (auto simp: window_inv_def box_square_def draw_image_def Let_def new_DraggableRectItem_def
           split: option.splits)

lemma set_image_size_inv:
  "window_inv self \<Longrightarrow> set_image_size t self = Inr self' \<Longrightarrow> window_inv self'"
proof -
  assume inv: "window_inv self" and r: "set_image_size t self = Inr self'"
  have a: "\<And>n. window_inv (self\<lparr>self_image_width := n, self_image_height := n\<rparr>)"
    using inv by (simp add: window_inv_def box_square_def)
  from r show ?thesis
    by (auto simp: set_image_size_def split: if_splits intro!: draw_image_inv a)
qed

lemma load_image_inv:
  "window_inv self \<Longrightarrow> window_inv (fst (load_image decode p (self, answers)))"
proof -
  assume inv: "window_inv self"
  have a: "\<And>i. window_inv (self\<lparr>self_image_original := Some i, self_image := Some i\<rparr>)"
    using inv by (simp add: window_inv_def box_square_def)
  show ?thesis
    using inv by (auto simp: load_image_def Let_def split: prod.splits intro!: draw_image_inv a)
qed

lemma dropEvent_inv:
  "window_inv (fst st) \<Longrightarrow> window_inv (fst (dropEvent decode urls st))"
proof (induction urls arbitrary: st)
  case Nil
  then show ?case by simp
next
  case (Cons url urls)
  obtain self answers where st: "st = (self, answers)" by (cases st)
  with Cons.prems have "window_inv (fst (load_image decode url st))"
    by (simp add: load_image_inv)
  then show ?case by (simp add: Cons.IH)
qed

lemma save_image_inv:
  "window_inv self \<Longrightarrow> save_image tk dlg self = Inr (self', saved) \<Longrightarrow> window_inv self'"
  by (auto simp: save_image_def Let_def window_inv_def box_square_def
           split: option.splits sum.splits if_splits)

lemma on_box_inv:
  assumes "window_inv self"
    and "\<And>box. rectf_width (item_rect box) = rectf_height (item_rect box) \<Longrightarrow>
           rectf_width (item_rect (f box)) = rectf_height (item_rect (f box))"
  shows "window_inv (on_box f self)"
  using assms by (auto simp: window_inv_def box_square_def on_box_def split: option.splits)

lemma step_inv: "window_inv (fst st) \<Longrightarrow> window_inv (fst (step tk decode st a))"
proof -
  assume inv: "window_inv (fst st)"
  obtain self answers where st: "st = (self, answers)" by (cases st)
  with inv have i: "window_inv self" by simp
  show ?thesis
  proof (cases a)
    case (SelectHandle b)
    then show ?thesis using i st by (simp add: on_box_inv)
  next
    case (HandleMove p)
    then show ?thesis using i st by (simp add: on_box_inv mouseMoveEvent_square)
  next
    case (DragBox d)
    then show ?thesis using i st by (simp add: on_box_inv)
  next
    case (SetImageSize t)
    then show ?thesis using i st set_image_size_inv [OF i]
      by (auto split: sum.splits)
  next
    case (LoadImage p)
    then show ?thesis using i st by (simp add: load_image_inv)
  next
    case (DropUrls urls)
    then show ?thesis using dropEvent_inv [of st decode urls] i st by simp
  next
    case (SaveImage dlg)
    then show ?thesis using i st save_image_inv [OF i, of tk]
      by (auto split: sum.splits)
  qed
qed

lemma foldl_step_inv:
  "window_inv (fst st) \<Longrightarrow> window_inv (fst (foldl (step tk decode) st actions))"
  by (induction actions arbitrary: st) (simp_all add: step_inv)

lemma init_inv: "window_inv init_ImageProcessor"
  by (simp add: window_inv_def box_square_def init_ImageProcessor_def)

lemma cdiv_two_near_half: "\<bar>real_of_int (cdiv (n - 1) 2) - real_of_int n / 2\<bar> \<le> 1"
proof (cases "0 \<le> n - 1")
  case True
  then have "cdiv (n - 1) 2 = (n - 1) div 2" by (simp add: cdiv_def sgn_if)
  moreover have "2 * ((n - 1) div 2) = n - 1 \<or> 2 * ((n - 1) div 2) = n - 2" by presburger
  ultimately show ?thesis by (auto simp: abs_if field_simps)
next
  case False
  then have "cdiv (n - 1) 2 = - ((1 - n) div 2)" by (simp add: cdiv_def sgn_if)
  moreover have "2 * ((1 - n) div 2) = 1 - n \<or> 2 * ((1 - n) div 2) = - n" by presburger
  ultimately show ?thesis by (auto simp: abs_if field_simps)
qed

lemma draw_image_box:
  assumes "self_image self = Some img"
  shows "self_box (draw_image True self) =
           Some \<lparr>item_rect = \<lparr>rectf_x = 0, rectf_y = 0,
                               rectf_width = real_of_int (self_image_width self),
                               rectf_height = real_of_int (self_image_height self)\<rparr>,
                 item_pos = (real_of_int (cdiv (img_width img - 1) 2 - self_image_width self div 2),
                             real_of_int (cdiv (img_height img - 1) 2 - self_image_height self div 2)),
                 pen_width = 20, resize_handle = new_ResizeHandle\<rparr>"
  using assms
  by (simp add: draw_image_def Let_def new_DraggableRectItem_def rect_center_def img_rect_def)

lemma load_image_path:
  "file_path \<noteq> [] \<Longrightarrow> self_image (fst (load_image decode file_path st)) = Some (decode file_path)"
  by (cases st) (simp add: load_image_def draw_image_def Let_def)

lemma window_with_eval:
  "window_with img =
     init_ImageProcessor\<lparr>self_image_original := Some img, self_image := Some img,
        self_box := Some \<lparr>item_rect = \<lparr>rectf_x = 0, rectf_y = 0, rectf_width = 1024, rectf_height = 1024\<rparr>,
                 item_pos = (real_of_int (cdiv (img_width img - 1) 2 - 512),
                             real_of_int (cdiv (img_height img - 1) 2 - 512)),
                 pen_width = 20, resize_handle = new_ResizeHandle\<rparr>\<rparr>"
  by (simp add: window_with_def disk_of_def load_image_def draw_image_def Let_def
        init_ImageProcessor_def new_DraggableRectItem_def rect_center_def img_rect_def)

lemma qRound_of_int: "qRound (real_of_int n) = n"
  by (simp add: qRound_def) linarith

lemma toRect_ints:
  "toRect \<lparr>rectf_x = real_of_int x, rectf_y = real_of_int y,
           rectf_width = real_of_int w, rectf_height = real_of_int h\<rparr>
     = \<lparr>rect_x = x, rect_y = y, rect_width = w, rect_height = h\<rparr>"
  by (simp add: toRect_def Let_def qRound_of_int)

lemma drawn_box_crop_rect:
  "crop_rect (drawn_box side (px, py)) =
     \<lparr>rect_x = px - 10, rect_y = py - 10, rect_width = side + 20, rect_height = side + 20\<rparr>"
proof -
  have "translate (item_pos (drawn_box side (px, py))) (boundingRect (drawn_box side (px, py))) =
          \<lparr>rectf_x = real_of_int (px - 10), rectf_y = real_of_int (py - 10),
           rectf_width = real_of_int (side + 20), rectf_height = real_of_int (side + 20)\<rparr>"
    by (simp add: drawn_box_def boundingRect_def translate_def)
  then show ?thesis
    unfolding crop_rect_def by (simp only: toRect_ints)
qed

lemma window_512:
  "fst (run tk (disk_of (ramp_image 1024 1024)) []
          [LoadImage ''in.png'', SetImageSize ''512 x 512''])
     = (window_with (ramp_image 1024 1024))
         \<lparr>self_image_width := 512, self_image_height := 512,
          self_box := Some (drawn_box 512 (255, 255))\<rparr>"
  by (simp add: run_def window_with_def disk_of_def load_image_def draw_image_def Let_def
        init_ImageProcessor_def new_DraggableRectItem_def rect_center_def img_rect_def
        set_image_size_def ramp_image_def cdiv_def drawn_box_def)

section \<open>The claims\<close>

text \<open>
  C1 (as amended). The claim gives the new side as side + max(dx, dy) with
  dx = pointerX - x - side and dy = pointerY - y - side and no other offset. The handler
  adds half of the handle's width and height, which is 20, to the two deltas: for a box
  that has not been moved from the origin of the scene (its item position is (0, 0)),
  whose position in the scene is (x, y), whose handle is selected and whose width and
  height are both \<open>side\<close>, the new width and the new height are both
  side + max(pointerX - x - side + 20, pointerY - y - side + 20).
\<close>

theorem resize_side_with_handle_offset:
  assumes "handle_selected (resize_handle box)"
    and "handle_rect (resize_handle box) = handle_rect new_ResizeHandle"
    and "rectf_width (item_rect box) = side" and "rectf_height (item_rect box) = side"
    and "item_pos box = (0, 0)" and "scene_position box = (x, y)"
  shows "rectf_width (item_rect (mouseMoveEvent (pointerX, pointerY) box)) =
           side + max (pointerX - x - side + 20) (pointerY - y - side + 20)
         \<and> rectf_height (item_rect (mouseMoveEvent (pointerX, pointerY) box)) =
           side + max (pointerX - x - side + 20) (pointerY - y - side + 20)"
proof -
  have "rectf_x (item_rect box) = x" "rectf_y (item_rect box) = y"
    using assms(5,6) by (simp_all add: scene_position_def)
  then show ?thesis
    using assms(2,3,4) mouseMoveEvent_size [OF assms(1), of pointerX pointerY]
    by (simp add: new_ResizeHandle_def)
qed

theorem resize_side_with_handle_offset_witness:
  "scene_position
      (selected_box \<lparr>rectf_x = 0, rectf_y = 0, rectf_width = 100, rectf_height = 100\<rparr>) = (0, 0)
   \<and> rectf_width (item_rect (mouseMoveEvent (130, 90)
      (selected_box \<lparr>rectf_x = 0, rectf_y = 0, rectf_width = 100, rectf_height = 100\<rparr>))) = 150
   \<and> rectf_height (item_rect (mouseMoveEvent (130, 90)
      (selected_box \<lparr>rectf_x = 0, rectf_y = 0, rectf_width = 100, rectf_height = 100\<rparr>))) = 150"
  using resize_side_with_handle_offset
    [of "selected_box \<lparr>rectf_x = 0, rectf_y = 0, rectf_width = 100, rectf_height = 100\<rparr>"
        100 0 0 130 90]
  by (simp add: selected_box_def new_DraggableRectItem_def new_ResizeHandle_def
        scene_position_def)

text \<open>
  C1 as stated fails. The pointer is on the far corner of a box of side 100 at the
  origin, so both deltas of the claim are 0 and the claimed side is 100; the handler
  makes the side 120. And for the box of side 512 that \<^verbatim>\<open>draw_image\<close> puts at
  (255, 255), with the pointer on its far corner (767, 767), the handler makes the side
  787, which is neither the claimed 512 nor 20 more: the handler takes the pointer in
  the scene's coordinates and the rectangle in the item's own.
\<close>

theorem resize_side_counterexample:
  "scene_position
      (selected_box \<lparr>rectf_x = 0, rectf_y = 0, rectf_width = 100, rectf_height = 100\<rparr>) = (0, 0)
   \<and> rectf_width (item_rect (mouseMoveEvent (100, 100)
      (selected_box \<lparr>rectf_x = 0, rectf_y = 0, rectf_width = 100, rectf_height = 100\<rparr>))) = 120
   \<and> rectf_width (item_rect (mouseMoveEvent (100, 100)
      (selected_box \<lparr>rectf_x = 0, rectf_y = 0, rectf_width = 100, rectf_height = 100\<rparr>)))
       \<noteq> spec_resized_side 0 0 100 100 100
   \<and> scene_position (with_handle_selected (drawn_box 512 (255, 255))) = (255, 255)
   \<and> rectf_width (item_rect (mouseMoveEvent (767, 767)
        (with_handle_selected (drawn_box 512 (255, 255))))) = 787
   \<and> spec_resized_side 255 255 512 767 767 = 512"
  by (simp add: mouseMoveEvent_def selected_box_def new_DraggableRectItem_def
        new_ResizeHandle_def spec_resized_side_def scene_position_def
        with_handle_selected_def drawn_box_def)

text \<open>
  C2. A box that is square before a pointer move on the handle is square after it,
  wherever the pointer is and whether the box grows or shrinks; and after every
  session, which starts with a fresh window and in which every box is made by
  \<^verbatim>\<open>draw_image\<close>, the box is square.
\<close>

theorem resize_keeps_square:
  "(rectf_width (item_rect box) = rectf_height (item_rect box) \<longrightarrow>
      rectf_width (item_rect (mouseMoveEvent scenePos box)) =
      rectf_height (item_rect (mouseMoveEvent scenePos box)))
   \<and> box_square (fst (run tk decode answers actions))"
proof
  show "rectf_width (item_rect box) = rectf_height (item_rect box) \<longrightarrow>
      rectf_width (item_rect (mouseMoveEvent scenePos box)) =
      rectf_height (item_rect (mouseMoveEvent scenePos box))"
    by (simp add: mouseMoveEvent_square)
  have "window_inv (fst (run tk decode answers actions))"
    unfolding run_def by (rule foldl_step_inv) (simp add: init_inv)
  then show "box_square (fst (run tk decode answers actions))"
    by (simp add: window_inv_def)
qed

theorem resize_keeps_square_witness:
  "rectf_width (item_rect (mouseMoveEvent (10, 20)
      (selected_box \<lparr>rectf_x = 0, rectf_y = 0, rectf_width = 100, rectf_height = 100\<rparr>))) =
   rectf_height (item_rect (mouseMoveEvent (10, 20)
      (selected_box \<lparr>rectf_x = 0, rectf_y = 0, rectf_width = 100, rectf_height = 100\<rparr>)))
   \<and> box_square (fst (run ample_toolkit two_files []
         [LoadImage ''a.png'', SelectHandle True, HandleMove (10, 20)]))
   \<and> map_option item_rect (self_box (fst (run ample_toolkit two_files []
         [LoadImage ''a.png'', SelectHandle True, HandleMove (10, 20)])))
       = Some \<lparr>rectf_x = 0, rectf_y = 0, rectf_width = 40, rectf_height = 40\<rparr>"
proof -
  have "map_option item_rect (self_box (fst (run ample_toolkit two_files []
         [LoadImage ''a.png'', SelectHandle True, HandleMove (10, 20)])))
       = Some \<lparr>rectf_x = 0, rectf_y = 0, rectf_width = 40, rectf_height = 40\<rparr>"
    by (simp add: run_def load_image_def draw_image_def Let_def init_ImageProcessor_def
          new_DraggableRectItem_def new_ResizeHandle_def on_box_def mouseMoveEvent_def)
  then show ?thesis
    using resize_keeps_square
      [of "selected_box \<lparr>rectf_x = 0, rectf_y = 0, rectf_width = 100, rectf_height = 100\<rparr>"
          "(10, 20)" ample_toolkit two_files "[]"
          "[LoadImage ''a.png'', SelectHandle True, HandleMove (10, 20)]"]
    by (simp add: selected_box_def new_DraggableRectItem_def)
qed

text \<open>
  C3 (as amended). After a save in which the user keeps the name that the dialog
  offers (the chosen path ends with a slash and that name): when the suggested name was
  \<^verbatim>\<open>stem_NNN.jpg\<close>, the stem a non-empty run of ASCII letters and digits and NNN a
  counter below 1000 padded to three digits, the suggested name becomes the same stem
  with the counter plus 1, padded to at least three digits; when the suggested name, an
  ASCII text without a slash, does not match the pattern of the code, it stays as it
  was. So \<^verbatim>\<open>image_001.jpg\<close> becomes \<^verbatim>\<open>image_002.jpg\<close> and \<^verbatim>\<open>photo.jpg\<close> stays.
\<close>

theorem accepted_save_advances_numbered_name:
  assumes img: "self_image self = Some img" and box: "self_box self = Some box"
  shows "(stem \<noteq> [] \<and> list_all is_alnum stem \<and> n < 1000
            \<and> self_suggested_filename self = numbered_name stem (int n)
            \<and> getSaveFileName (numbered_name stem (int n + 1))
                  = dir @ ''/'' @ numbered_name stem (int n + 1)
          \<longrightarrow> filename_after_save tk getSaveFileName self = Some (numbered_name stem (int n + 1)))
       \<and> (\<not> re_match (self_suggested_filename self)
            \<and> ascii_text (self_suggested_filename self)
            \<and> CHR ''/'' \<notin> set (self_suggested_filename self)
            \<and> getSaveFileName (self_suggested_filename self)
                  = dir @ ''/'' @ self_suggested_filename self
          \<longrightarrow> filename_after_save tk getSaveFileName self = Some (self_suggested_filename self))"
proof (intro conjI impI)
  assume a: "stem \<noteq> [] \<and> list_all is_alnum stem \<and> n < 1000
            \<and> self_suggested_filename self = numbered_name stem (int n)
            \<and> getSaveFileName (numbered_name stem (int n + 1))
                  = dir @ ''/'' @ numbered_name stem (int n + 1)"
  then have m: "re_match (self_suggested_filename self)"
    using re_match_numbered [of stem n] by (simp add: numbered_name_def)
  have i: "incremented_filename (self_suggested_filename self) = Inr (numbered_name stem (int n + 1))"
    using a incremented_filename_numbered [of stem n] by (simp add: numbered_name_def)
  have s: "CHR ''/'' \<notin> set (numbered_name stem (int n + 1))"
    using a by (intro numbered_name_no_slash) simp_all
  show "filename_after_save tk getSaveFileName self = Some (numbered_name stem (int n + 1))"
    using save_image_accepted [OF img box _ s, of getSaveFileName dir tk] m i a by simp
next
  assume a: "\<not> re_match (self_suggested_filename self)
            \<and> ascii_text (self_suggested_filename self)
            \<and> CHR ''/'' \<notin> set (self_suggested_filename self)
            \<and> getSaveFileName (self_suggested_filename self)
                  = dir @ ''/'' @ self_suggested_filename self"
  then show "filename_after_save tk getSaveFileName self = Some (self_suggested_filename self)"
    using save_image_accepted [OF img box, of "self_suggested_filename self" getSaveFileName dir tk]
    by simp
qed

theorem accepted_save_advances_numbered_name_witness:
  "self_suggested_filename ((window_with (ramp_image 4 4))\<lparr>self_suggested_filename := ''image_001.jpg''\<rparr>)
      = numbered_name ''image'' 1
   \<and> filename_after_save ample_toolkit accept_offered
        ((window_with (ramp_image 4 4))\<lparr>self_suggested_filename := ''image_001.jpg''\<rparr>)
      = Some ''image_002.jpg''
   \<and> \<not> re_match ''photo.jpg''
   \<and> filename_after_save ample_toolkit accept_offered
        ((window_with (ramp_image 4 4))\<lparr>self_suggested_filename := ''photo.jpg''\<rparr>)
      = Some ''photo.jpg''"
proof -
  have n1: "numbered_name ''image'' 1 = ''image_001.jpg''" by code_simp
  have n2: "numbered_name ''image'' 2 = ''image_002.jpg''" by code_simp
  have a: "list_all is_alnum ''image''" by code_simp
  have p: "\<not> re_match ''photo.jpg''" "ascii_text ''photo.jpg''" by code_simp+
  let ?w = "window_with (ramp_image 4 4)"
  have i: "self_image (?w\<lparr>self_suggested_filename := ''image_001.jpg''\<rparr>) = Some (ramp_image 4 4)"
    "self_image (?w\<lparr>self_suggested_filename := ''photo.jpg''\<rparr>) = Some (ramp_image 4 4)"
    by (simp_all add: window_with_eval)
  have b: "self_box (?w\<lparr>self_suggested_filename := ''image_001.jpg''\<rparr>) = self_box ?w"
    "self_box (?w\<lparr>self_suggested_filename := ''photo.jpg''\<rparr>) = self_box ?w"
    by simp_all
  obtain box where bx: "self_box ?w = Some box" by (simp add: window_with_eval)
  show ?thesis
    using accepted_save_advances_numbered_name
      [of "?w\<lparr>self_suggested_filename := ''image_001.jpg''\<rparr>" "ramp_image 4 4" box
          "''image''" 1 accept_offered "''/out''" ample_toolkit]
      accepted_save_advances_numbered_name
      [of "?w\<lparr>self_suggested_filename := ''photo.jpg''\<rparr>" "ramp_image 4 4" box
          "''image''" 1 accept_offered "''/out''" ample_toolkit]
      n1 n2 a p i b bx
    by (simp add: accept_offered_def)
qed

text \<open>
  C3 as stated fails. The suggested name is \<^verbatim>\<open>image_001.jpg\<close> and the save succeeds
  under a name the user typed, \<^verbatim>\<open>/out/cat.jpg\<close>: the suggested name becomes
  \<^verbatim>\<open>cat.jpg\<close>, not \<^verbatim>\<open>image_002.jpg\<close>. And for \<^verbatim>\<open>my_image_001.jpg\<close>, whose stem has
  an underscore, the handler raises ValueError before the dialog opens.
\<close>

theorem save_filename_counterexample:
  "self_suggested_filename ((window_with (ramp_image 4 4))\<lparr>self_suggested_filename := ''image_001.jpg''\<rparr>)
      = numbered_name ''image'' 1
   \<and> filename_after_save ample_toolkit other_name_dialog
        ((window_with (ramp_image 4 4))\<lparr>self_suggested_filename := ''image_001.jpg''\<rparr>)
      = Some ''cat.jpg''
   \<and> ''cat.jpg'' \<noteq> numbered_name ''image'' 2
   \<and> save_image ample_toolkit accept_offered
        ((window_with (ramp_image 4 4))\<lparr>self_suggested_filename := ''my_image_001.jpg''\<rparr>)
      = Inl ValueError"
proof -
  have n1: "numbered_name ''image'' 1 = ''image_001.jpg''" by code_simp
  have n2: "numbered_name ''image'' 2 = ''image_002.jpg''" by code_simp
  have m: "re_match ''image_001.jpg''" "re_match ''my_image_001.jpg''" by code_simp+
  have i: "incremented_filename ''image_001.jpg'' = Inr ''image_002.jpg''"
    "incremented_filename ''my_image_001.jpg'' = Inl ValueError" by code_simp+
  have s: "split_str CHR ''/'' ''/out/cat.jpg'' = [[], ''out'', ''cat.jpg'']" by code_simp
  show ?thesis
    using n1 n2 m i s
    by (simp add: filename_after_save_def save_image_def window_with_eval Let_def
          init_ImageProcessor_def other_name_dialog_def index_last_def)
qed

text \<open>
  C4 (as amended). With an image and a box, and a suggested name of ASCII text, a save
  that the user cancels in the dialog makes no call of \<^verbatim>\<open>QImage.save\<close>; it leaves
  the window as it was when the suggested name does not match the pattern, and
  otherwise leaves it with the incremented name, which was stored before the dialog
  opened. A save whose write fails is not covered by this statement.
\<close>

theorem cancelled_save_keeps_offered_name:
  assumes img: "self_image self = Some img" and box: "self_box self = Some box"
    and ascii: "ascii_text (self_suggested_filename self)"
  shows "(\<not> re_match (self_suggested_filename self)
            \<and> getSaveFileName (self_suggested_filename self) = []
          \<longrightarrow> save_image tk getSaveFileName self = Inr (self, []))
       \<and> (re_match (self_suggested_filename self)
            \<and> incremented_filename (self_suggested_filename self) = Inr name
            \<and> getSaveFileName name = []
          \<longrightarrow> save_image tk getSaveFileName self
                = Inr (self\<lparr>self_suggested_filename := name\<rparr>, []))"
  using img box by (simp add: save_image_def Let_def)

theorem cancelled_save_keeps_offered_name_witness:
  "save_image ample_toolkit cancel_dialog
        ((window_with (ramp_image 4 4))\<lparr>self_suggested_filename := ''photo.jpg''\<rparr>)
      = Inr ((window_with (ramp_image 4 4))\<lparr>self_suggested_filename := ''photo.jpg''\<rparr>, [])
   \<and> save_image ample_toolkit cancel_dialog (window_with (ramp_image 4 4))
      = Inr ((window_with (ramp_image 4 4))\<lparr>self_suggested_filename := ''image_001.jpg''\<rparr>, [])"
proof -
  have m: "re_match ''image_000.jpg''" "\<not> re_match ''photo.jpg''" by code_simp+
  have a: "ascii_text ''image_000.jpg''" "ascii_text ''photo.jpg''" by code_simp+
  have i: "incremented_filename ''image_000.jpg'' = Inr ''image_001.jpg''" by code_simp
  let ?w = "window_with (ramp_image 4 4)"
  obtain box where bx: "self_box ?w = Some box" by (simp add: window_with_eval)
  have f: "self_suggested_filename ?w = ''image_000.jpg''"
    by (simp add: window_with_eval init_ImageProcessor_def)
  have im: "self_image ?w = Some (ramp_image 4 4)" by (simp add: window_with_eval)
  show ?thesis
    using cancelled_save_keeps_offered_name
      [of "?w\<lparr>self_suggested_filename := ''photo.jpg''\<rparr>" "ramp_image 4 4" box
          cancel_dialog ample_toolkit "''image_001.jpg''"]
      cancelled_save_keeps_offered_name
      [of ?w "ramp_image 4 4" box cancel_dialog ample_toolkit "''image_001.jpg''"]
      m a i bx f im
    by (simp add: cancel_dialog_def)
qed

text \<open>
  C4 as stated fails, in both of its cases. In a fresh window with an image loaded the
  suggested name is \<^verbatim>\<open>image_000.jpg\<close>. The user presses save and cancels the dialog:
  nothing is saved, and the suggested name is \<^verbatim>\<open>image_001.jpg\<close> afterwards. Or the
  user accepts the offered name and the disk takes no file: the one call of
  \<^verbatim>\<open>QImage.save\<close> returns false, and the window says \<^verbatim>\<open>Saved!\<close> and suggests
  \<^verbatim>\<open>image_001.jpg\<close> all the same.
\<close>

theorem cancelled_save_counterexample:
  "self_suggested_filename (window_with (ramp_image 4 4)) = ''image_000.jpg''
   \<and> saved_files ample_toolkit cancel_dialog (window_with (ramp_image 4 4)) = []
   \<and> filename_after_save ample_toolkit cancel_dialog (window_with (ramp_image 4 4))
        = Some ''image_001.jpg''
   \<and> map call_outcome
        (saved_files full_disk_toolkit accept_offered (window_with (ramp_image 4 4)))
        = [(''/out/image_001.jpg'', False)]
   \<and> filename_after_save full_disk_toolkit accept_offered (window_with (ramp_image 4 4))
        = Some ''image_001.jpg''"
proof -
  have m: "re_match ''image_000.jpg''" by code_simp
  have i: "incremented_filename ''image_000.jpg'' = Inr ''image_001.jpg''" by code_simp
  have s: "split_str CHR ''/'' ''/out/image_001.jpg'' = [[], ''out'', ''image_001.jpg'']"
    by code_simp
  have c: "self_suggested_filename (window_with (ramp_image 4 4)) = ''image_000.jpg''"
    "saved_files ample_toolkit cancel_dialog (window_with (ramp_image 4 4)) = []"
    "filename_after_save ample_toolkit cancel_dialog (window_with (ramp_image 4 4))
        = Some ''image_001.jpg''"
    using m i
    by (simp_all add: filename_after_save_def saved_files_def save_image_def window_with_eval
          Let_def init_ImageProcessor_def cancel_dialog_def)
  have w: "map call_outcome
        (saved_files full_disk_toolkit accept_offered (window_with (ramp_image 4 4)))
        = [(''/out/image_001.jpg'', False)]"
    "filename_after_save full_disk_toolkit accept_offered (window_with (ramp_image 4 4))
        = Some ''image_001.jpg''"
    using m i s
    by (simp_all add: filename_after_save_def saved_files_def save_image_def window_with_eval
          Let_def init_ImageProcessor_def accept_offered_def index_last_def QImage_save_def
          full_disk_toolkit_def call_outcome_def split: option.splits)
  show ?thesis using c w by simp
qed

text \<open>
  C5. With an image loaded, each of the three size texts makes a box of exactly that
  side, and its place is within 1 of the centre of the image less half the side, on
  both axes.
\<close>

theorem size_target_centres_box:
  assumes img: "self_image self = Some img"
    and target: "(size_text, side) \<in> {(''512 x 512'', 512), (''1024 x 1024'', 1024), (''2048 x 2048'', 2048)}"
  shows "\<exists>self' box. set_image_size size_text self = Inr self' \<and> self_box self' = Some box
           \<and> item_rect box = \<lparr>rectf_x = 0, rectf_y = 0, rectf_width = real_of_int side,
                                rectf_height = real_of_int side\<rparr>
           \<and> \<bar>fst (item_pos box) - (real_of_int (img_width img) / 2 - real_of_int side / 2)\<bar> \<le> 1
           \<and> \<bar>snd (item_pos box) - (real_of_int (img_height img) / 2 - real_of_int side / 2)\<bar> \<le> 1"
proof -
  let ?self = "self\<lparr>self_image_width := side, self_image_height := side\<rparr>"
  have r: "set_image_size size_text self = Inr (draw_image True ?self)"
    using target by (auto simp: set_image_size_def)
  have i: "self_image ?self = Some img" using img by simp
  have e: "even side" using target by auto
  then have h: "real_of_int (side div 2) = real_of_int side / 2"
    by (metis even_two_times_div_two of_int_mult of_int_numeral nonzero_mult_div_cancel_left zero_neq_numeral)
  have x: "\<bar>real_of_int (cdiv (img_width img - 1) 2 - side div 2)
            - (real_of_int (img_width img) / 2 - real_of_int side / 2)\<bar> \<le> 1"
    using cdiv_two_near_half [of "img_width img"] by (simp add: h)
  have y: "\<bar>real_of_int (cdiv (img_height img - 1) 2 - side div 2)
            - (real_of_int (img_height img) / 2 - real_of_int side / 2)\<bar> \<le> 1"
    using cdiv_two_near_half [of "img_height img"] by (simp add: h)
  show ?thesis
    using x y by (simp add: r draw_image_box [OF i])
qed

theorem size_target_centres_box_witness:
  "\<exists>self' box. set_image_size ''512 x 512'' (window_with (ramp_image 1000 801)) = Inr self'
      \<and> self_box self' = Some box
      \<and> item_rect box = \<lparr>rectf_x = 0, rectf_y = 0, rectf_width = 512, rectf_height = 512\<rparr>
      \<and> \<bar>fst (item_pos box) - (1000 / 2 - 512 / 2)\<bar> \<le> 1
      \<and> \<bar>snd (item_pos box) - (801 / 2 - 512 / 2)\<bar> \<le> 1"
  using size_target_centres_box
    [of "window_with (ramp_image 1000 801)" "ramp_image 1000 801" "''512 x 512''" 512]
  by (simp add: window_with_eval ramp_image_def)

text \<open>
  C6 (as amended). The crop raises nothing. For an image that is not null and a
  cropped rectangle of positive width and height: when the toolkit can allocate an
  image of that size, the result has exactly that width and height, which is no less
  than the part of the rectangle inside the image, and each pixel of it is the pixel
  of the image at that place when the place is inside the image and 0 when it is
  outside (the result is padded to the full size, not clipped); when the toolkit
  cannot allocate it, the result is a null image. When the width or the height is not
  positive, the result is a null image, except that a rectangle of width 0 and height
  0 gives the whole image when a copy of it can be allocated. A null image gives a
  null image.
\<close>

theorem crop_is_padded_not_clipped:
  "(\<not> img_isNull img \<and> 0 < rect_width (crop_rect box) \<and> 0 < rect_height (crop_rect box)
      \<and> can_allocate tk (rect_width (crop_rect box)) (rect_height (crop_rect box)) \<longrightarrow>
            img_width (crop tk img box) = rect_width (crop_rect box)
          \<and> img_height (crop tk img box) = rect_height (crop_rect box)
          \<and> fst (spec_clipped_size (crop_rect box) img) \<le> img_width (crop tk img box)
          \<and> snd (spec_clipped_size (crop_rect box) img) \<le> img_height (crop tk img box)
          \<and> img_pixel (crop tk img box) i j =
              (if 0 \<le> rect_x (crop_rect box) + i \<and> rect_x (crop_rect box) + i < img_width img
                  \<and> 0 \<le> rect_y (crop_rect box) + j \<and> rect_y (crop_rect box) + j < img_height img
               then img_pixel img (rect_x (crop_rect box) + i) (rect_y (crop_rect box) + j)
               else 0))
   \<and> (\<not> img_isNull img \<and> 0 < rect_width (crop_rect box) \<and> 0 < rect_height (crop_rect box)
      \<and> \<not> can_allocate tk (rect_width (crop_rect box)) (rect_height (crop_rect box)) \<longrightarrow>
            crop tk img box = null_QImage)
   \<and> (\<not> img_isNull img
        \<and> (rect_width (crop_rect box) \<le> 0 \<or> rect_height (crop_rect box) \<le> 0)
        \<and> \<not> rect_isNull (crop_rect box) \<longrightarrow> crop tk img box = null_QImage)
   \<and> (\<not> img_isNull img \<and> rect_isNull (crop_rect box)
        \<and> can_allocate tk (img_width img) (img_height img) \<longrightarrow> crop tk img box = img)
   \<and> (\<not> img_isNull img \<and> rect_isNull (crop_rect box)
        \<and> \<not> can_allocate tk (img_width img) (img_height img) \<longrightarrow> crop tk img box = null_QImage)
   \<and> (img_isNull img \<longrightarrow> crop tk img box = null_QImage)"
  by (auto simp: crop_def QImage_copy_def rect_isNull_def spec_clipped_size_def)

theorem crop_is_padded_not_clipped_witness:
  "img_width (crop ample_toolkit (ramp_image 100 100) (drawn_box 1024 (-463, -463))) = 1044
   \<and> img_height (crop ample_toolkit (ramp_image 100 100) (drawn_box 1024 (-463, -463))) = 1044
   \<and> img_pixel (crop ample_toolkit (ramp_image 100 100) (drawn_box 1024 (-463, -463))) 473 473 = 0
   \<and> img_pixel (crop ample_toolkit (ramp_image 100 100) (drawn_box 1024 (-463, -463))) 472 473 = 0
   \<and> crop small_memory_toolkit (ramp_image 100 100) (drawn_box 1024 (-463, -463)) = null_QImage
   \<and> crop ample_toolkit (ramp_image 100 100) (drawn_box (-30) (70, 70)) = null_QImage
   \<and> crop ample_toolkit (ramp_image 100 100) (drawn_box (-20) (70, 70)) = ramp_image 100 100
   \<and> crop ample_toolkit null_QImage (drawn_box 1024 (0, 0)) = null_QImage"
  using crop_is_padded_not_clipped
      [of "ramp_image 100 100" "drawn_box 1024 (-463, -463)" ample_toolkit 473 473]
    crop_is_padded_not_clipped
      [of "ramp_image 100 100" "drawn_box 1024 (-463, -463)" ample_toolkit 472 473]
    crop_is_padded_not_clipped
      [of "ramp_image 100 100" "drawn_box 1024 (-463, -463)" small_memory_toolkit]
    crop_is_padded_not_clipped
      [of "ramp_image 100 100" "drawn_box (-30) (70, 70)" ample_toolkit]
    crop_is_padded_not_clipped
      [of "ramp_image 100 100" "drawn_box (-20) (70, 70)" ample_toolkit]
    crop_is_padded_not_clipped
      [of null_QImage "drawn_box 1024 (0, 0)" ample_toolkit]
  by (simp add: drawn_box_crop_rect img_isNull_def ramp_image_def rect_isNull_def
        null_QImage_def ample_toolkit_def small_memory_toolkit_def)

text \<open>
  C6 as stated fails. An image of 100 by 100 is loaded into a fresh window, whose box
  of side 1024 then hangs over the image on every side. The part of the cropped
  rectangle inside the image is 100 by 100, but the crop is 1044 by 1044, and its pixel
  at the corner, which is outside the image, is 0.
\<close>

theorem crop_clipped_counterexample:
  "self_box (window_with (ramp_image 100 100)) = Some (drawn_box 1024 (-463, -463))
   \<and> spec_clipped_size (crop_rect (drawn_box 1024 (-463, -463))) (ramp_image 100 100) = (100, 100)
   \<and> img_width (crop ample_toolkit (ramp_image 100 100) (drawn_box 1024 (-463, -463))) = 1044
   \<and> img_height (crop ample_toolkit (ramp_image 100 100) (drawn_box 1024 (-463, -463))) = 1044
   \<and> img_pixel (crop ample_toolkit (ramp_image 100 100) (drawn_box 1024 (-463, -463))) 0 0 = 0"
proof -
  have "self_box (window_with (ramp_image 100 100)) = Some (drawn_box 1024 (-463, -463))"
    by (simp add: window_with_eval drawn_box_def ramp_image_def cdiv_def)
  moreover have
    "spec_clipped_size (crop_rect (drawn_box 1024 (-463, -463))) (ramp_image 100 100) = (100, 100)"
    by (simp add: drawn_box_crop_rect spec_clipped_size_def ramp_image_def)
  moreover have
    "img_width (crop ample_toolkit (ramp_image 100 100) (drawn_box 1024 (-463, -463))) = 1044"
    "img_height (crop ample_toolkit (ramp_image 100 100) (drawn_box 1024 (-463, -463))) = 1044"
    "img_pixel (crop ample_toolkit (ramp_image 100 100) (drawn_box 1024 (-463, -463))) 0 0 = 0"
    by (simp_all add: drawn_box_crop_rect crop_def QImage_copy_def img_isNull_def ramp_image_def
          rect_isNull_def ample_toolkit_def)
  ultimately show ?thesis by simp
qed

text \<open>
  C7 (the code departs from the claim). A 1024 by 1024 image is loaded, "512 x 512" is
  selected and the user saves under the offered name, on a machine with ample memory
  and disk. The box is put at (255, 255), because the centre of a rectangle of even
  size is taken as (511, 511), and the rectangle that is cropped is the bounding
  rectangle with half of the pen's width on every side: 532 by 532 from (245, 245),
  scaled down to 512 by 512. Its first pixel is the image's pixel at (245, 245), not
  the one at (256, 256).
\<close>

theorem centre_crop_takes_532_square:
  "self_box (fst (run ample_toolkit (disk_of (ramp_image 1024 1024)) []
       [LoadImage ''in.png'', SetImageSize ''512 x 512''])) = Some (drawn_box 512 (255, 255))
   \<and> crop_rect (drawn_box 512 (255, 255)) =
       \<lparr>rect_x = 245, rect_y = 245, rect_width = 532, rect_height = 532\<rparr>
   \<and> saved_files ample_toolkit accept_offered
       (fst (run ample_toolkit (disk_of (ramp_image 1024 1024)) []
          [LoadImage ''in.png'', SetImageSize ''512 x 512''])) =
       [(''/out/image_001.jpg'',
         Some \<lparr>scaled_from = QImage_copy ample_toolkit
                   \<lparr>rect_x = 245, rect_y = 245, rect_width = 532, rect_height = 532\<rparr>
                   (ramp_image 1024 1024),
               scaled_size = (512, 512)\<rparr>,
         True)]
   \<and> img_pixel (QImage_copy ample_toolkit
         \<lparr>rect_x = 245, rect_y = 245, rect_width = 532, rect_height = 532\<rparr>
         (ramp_image 1024 1024)) 0 0 = img_pixel (ramp_image 1024 1024) 245 245"
proof -
  let ?r = "\<lparr>rect_x = 245, rect_y = 245, rect_width = 532, rect_height = 532\<rparr>"
  let ?c = "QImage_copy ample_toolkit ?r (ramp_image 1024 1024)"
  have m: "re_match ''image_000.jpg''" by code_simp
  have i: "incremented_filename ''image_000.jpg'' = Inr ''image_001.jpg''" by code_simp
  have s: "split_str CHR ''/'' ''/out/image_001.jpg'' = [[], ''out'', ''image_001.jpg'']"
    by code_simp
  have c: "crop_rect (drawn_box 512 (255, 255)) = ?r"
    by (simp add: drawn_box_crop_rect)
  have q: "QImage_scaled ample_toolkit 512 512 ?c =
             Some \<lparr>scaled_from = ?c, scaled_size = (512, 512)\<rparr>"
    by (simp add: QImage_scaled_def QImage_copy_def img_isNull_def ramp_image_def rect_isNull_def
          QSize_scaled_def cdiv_def ample_toolkit_def Let_def)
  have f: "saved_files ample_toolkit accept_offered
             ((window_with (ramp_image 1024 1024))
                \<lparr>self_image_width := 512, self_image_height := 512,
                 self_box := Some (drawn_box 512 (255, 255))\<rparr>) =
           [(''/out/image_001.jpg'', Some \<lparr>scaled_from = ?c, scaled_size = (512, 512)\<rparr>, True)]"
    using m i s c q
    by (simp add: saved_files_def save_image_def window_with_eval Let_def init_ImageProcessor_def
          accept_offered_def index_last_def crop_def QImage_save_def)
       (simp add: ample_toolkit_def)
  have p: "img_pixel ?c 0 0 = img_pixel (ramp_image 1024 1024) 245 245"
    by (simp add: QImage_copy_def img_isNull_def ramp_image_def rect_isNull_def
          ample_toolkit_def)
  show ?thesis
    using c f p by (simp only: window_512 ImageProcessor.simps) simp
qed

text \<open>
  C8 (the code departs from the claim). In a fresh window, where the image is
  \<^verbatim>\<open>None\<close>, the save button does nothing. But after a file that cannot be decoded has
  been loaded, no image is loaded either: \<^verbatim>\<open>self.image\<close> is a null image, which the
  guard of \<^verbatim>\<open>save_image\<close> takes for true, and a box was made. The save button then
  opens the dialog, and when the user accepts the offered name the window says
  \<^verbatim>\<open>Saved!\<close> and suggests the next name, while the one call of \<^verbatim>\<open>QImage.save\<close> has
  a null image to write and returns false.
\<close>

theorem save_after_failed_load:
  "save_image ample_toolkit accept_offered init_ImageProcessor = Inr (init_ImageProcessor, [])
   \<and> self_image (window_with null_QImage) = Some null_QImage
   \<and> self_box (window_with null_QImage) = Some (drawn_box 1024 (-512, -512))
   \<and> self_message_label (window_with null_QImage) = []
   \<and> self_suggested_filename (window_with null_QImage) = ''image_000.jpg''
   \<and> save_image ample_toolkit accept_offered (window_with null_QImage) =
       Inr ((window_with null_QImage)
              \<lparr>self_message_label := ''Saved!'', self_suggested_filename := ''image_001.jpg''\<rparr>,
            [(''/out/image_001.jpg'', None, False)])"
proof -
  have m: "re_match ''image_000.jpg''" by code_simp
  have i: "incremented_filename ''image_000.jpg'' = Inr ''image_001.jpg''" by code_simp
  have s: "split_str CHR ''/'' ''/out/image_001.jpg'' = [[], ''out'', ''image_001.jpg'']"
    by code_simp
  have a: "save_image ample_toolkit accept_offered init_ImageProcessor
             = Inr (init_ImageProcessor, [])"
    by (simp add: save_image_def init_ImageProcessor_def)
  have b: "self_image (window_with null_QImage) = Some null_QImage"
    "self_box (window_with null_QImage) = Some (drawn_box 1024 (-512, -512))"
    "self_message_label (window_with null_QImage) = []"
    "self_suggested_filename (window_with null_QImage) = ''image_000.jpg''"
    by (simp_all add: window_with_eval init_ImageProcessor_def drawn_box_def null_QImage_def
          cdiv_def)
  have c: "save_image ample_toolkit accept_offered (window_with null_QImage) =
       Inr ((window_with null_QImage)
              \<lparr>self_message_label := ''Saved!'', self_suggested_filename := ''image_001.jpg''\<rparr>,
            [(''/out/image_001.jpg'', None, False)])"
    using m i s b
    by (simp add: save_image_def Let_def accept_offered_def index_last_def crop_def
          QImage_copy_def QImage_scaled_def QImage_save_def img_isNull_def null_QImage_def)
  show ?thesis using a b c by simp
qed

text \<open>
  C9. A size text other than the three of the combo box raises ValueError; each of the
  three sets the selected width and height to its number and raises nothing.
\<close>

theorem set_image_size_rejects_other_text:
  "(size_text \<notin> {''512 x 512'', ''1024 x 1024'', ''2048 x 2048''} \<longrightarrow>
      set_image_size size_text self = Inl ValueError)
   \<and> (\<exists>self'. set_image_size ''512 x 512'' self = Inr self'
         \<and> self_image_width self' = 512 \<and> self_image_height self' = 512)
   \<and> (\<exists>self'. set_image_size ''1024 x 1024'' self = Inr self'
         \<and> self_image_width self' = 1024 \<and> self_image_height self' = 1024)
   \<and> (\<exists>self'. set_image_size ''2048 x 2048'' self = Inr self'
         \<and> self_image_width self' = 2048 \<and> self_image_height self' = 2048)"
  by (auto simp: set_image_size_def draw_image_def Let_def split: option.splits)


theorem set_image_size_rejects_other_text_witness:
  "set_image_size ''300 x 300'' init_ImageProcessor = Inl ValueError"
  using set_image_size_rejects_other_text [of "''300 x 300''" init_ImageProcessor]
  by simp

text \<open>
  C10 (as amended). After a drop of several URLs the image is the one of the last URL
  of the list, when that URL is a local file: every URL is loaded in turn and each
  load replaces the image.
\<close>

theorem drop_loads_last_url:
  assumes "urls \<noteq> []" and "last urls \<noteq> []"
  shows "self_image (fst (dropEvent decode urls st)) = Some (decode (last urls))"
  using assms
proof (induction urls arbitrary: st)
  case Nil
  then show ?case by simp
next
  case (Cons url urls)
  show ?case
  proof (cases "urls = []")
    case True
    with Cons.prems show ?thesis by (simp add: load_image_path)
  next
    case False
    with Cons show ?thesis by simp
  qed
qed


theorem drop_loads_last_url_witness:
  "self_image (fst (dropEvent two_files [''a.png'', ''b.png''] (init_ImageProcessor, [])))
     = Some (ramp_image 2 2)"
  using drop_loads_last_url [of "[''a.png'', ''b.png'']" two_files "(init_ImageProcessor, [])"]
  by (simp add: two_files_def)

text \<open>
  C10 as stated fails: two files are dropped, and the image at the end is the one of
  the second file, not the one of the first.
\<close>

theorem drop_first_url_counterexample:
  "self_image (fst (dropEvent two_files [''a.png'', ''b.png''] (init_ImageProcessor, [])))
     = Some (two_files ''b.png'')
   \<and> self_image (fst (dropEvent two_files [''a.png'', ''b.png''] (init_ImageProcessor, [])))
     \<noteq> Some (two_files ''a.png'')"
  by (simp add: load_image_path two_files_def ramp_image_def)


end
